theory Spec2Isabelle
  imports Main "HOL-Library.Monad_Syntax"
begin

section \<open>Connect Four with pop moves: board, constants, Python primitives\<close>

text \<open>
  The module \<^verbatim>\<open>connect4.py\<close> keeps the board as a flat Python list of ints, seven cells
  per row, bottom row first. Python ints are unbounded, so cells, players, rows and
  columns are all \<^typ>\<open>int\<close>.
\<close>

type_synonym board = "int list"

definition YELLOW :: int where
  "YELLOW = 1"

definition RED :: int where
  "RED = 2"

definition COLS :: int where
  "COLS = 7"

text \<open>
  \<^verbatim>\<open>board[i]\<close>: a Python list read. An index below zero counts from the end of the
  list; an index outside \<open>[-len, len)\<close> raises IndexError, which is the value \<open>None\<close>
  here. IndexError is the only exception the modelled functions can raise.
\<close>

definition item :: "board \<Rightarrow> int \<Rightarrow> int option" where
  "item b i =
     (if 0 \<le> i \<and> i < int (length b) then Some (b ! nat i)
      else if - int (length b) \<le> i \<and> i < 0 then Some (b ! nat (int (length b) + i))
      else None)"

text \<open>\<^verbatim>\<open>range(a, b)\<close> and \<^verbatim>\<open>range(a, b, -1)\<close>.\<close>

definition py_range :: "int \<Rightarrow> int \<Rightarrow> int list" where
  "py_range a b = [a..b - 1]"

definition py_range_down :: "int \<Rightarrow> int \<Rightarrow> int list" where
  "py_range_down a b = rev [b + 1..a]"

text \<open>
  A \<^verbatim>\<open>for\<close> loop over a list whose body reads the board: the body maps the loop
  variable and the state to the next state, and an exception in the body ends the loop.
\<close>

fun for_loop :: "'a list \<Rightarrow> ('a \<Rightarrow> 's \<Rightarrow> 's option) \<Rightarrow> 's \<Rightarrow> 's option" where
  "for_loop [] body s = Some s"
| "for_loop (i # is) body s =
     (case body i s of None \<Rightarrow> None | Some s' \<Rightarrow> for_loop is body s')"

section \<open>check_victory\<close>

text \<open>
  The local variables of \<^verbatim>\<open>check_victory\<close> that live across loop iterations.
\<close>

record scan =
  yellow_wins :: bool
  red_wins :: bool
  streak_piece :: int
  index_of_streak_start :: int

text \<open>
  The block that occurs eight times in the source:
  \<^verbatim>\<open>if streak_piece == YELLOW: yellow_wins = True
  elif streak_piece == RED: red_wins = True\<close>
\<close>

definition record_win :: "scan \<Rightarrow> scan" where
  "record_win s =
     (if streak_piece s = YELLOW then s\<lparr>yellow_wins := True\<rparr>
      else if streak_piece s = RED then s\<lparr>red_wins := True\<rparr>
      else s)"

text \<open>
  The body of every inner loop once \<^verbatim>\<open>piece\<close> has been read, \<open>pos\<close> being the loop
  counter (\<^verbatim>\<open>col\<close>, \<^verbatim>\<open>row\<close> or \<^verbatim>\<open>diagonal_idx\<close>):
  \<^verbatim>\<open>if piece != streak_piece:
      if streak_piece != 0 and pos - index_of_streak_start + 1 == 4: (record the win)
      index_of_streak_start = pos
      streak_piece = piece\<close>
\<close>

definition visit :: "int \<Rightarrow> int \<Rightarrow> scan \<Rightarrow> scan" where
  "visit piece pos s =
     (if piece \<noteq> streak_piece s then
        (if streak_piece s \<noteq> 0 \<and> pos - index_of_streak_start s + 1 = 4
         then record_win s else s)
        \<lparr>index_of_streak_start := pos, streak_piece := piece\<rparr>
      else s)"

text \<open>
  The check after every inner loop,
  \<^verbatim>\<open>if streak_piece != 0 and n - index_of_streak_start == 4: (record the win)\<close>
  where \<open>n\<close> is \<^verbatim>\<open>6 + 1\<close> for a row, \<^verbatim>\<open>5 + 1\<close> for a column and
  \<^verbatim>\<open>num_rows - row\<close> for a diagonal.
\<close>

definition finish :: "int \<Rightarrow> scan \<Rightarrow> scan" where
  "finish n s =
     (if streak_piece s \<noteq> 0 \<and> n - index_of_streak_start s = 4
      then record_win s else s)"

text \<open>\<^verbatim>\<open>streak_piece = 0; index_of_streak_start = 0\<close> at the start of every line.\<close>

definition new_line :: "scan \<Rightarrow> scan" where
  "new_line s = s\<lparr>streak_piece := 0, index_of_streak_start := 0\<rparr>"

text \<open>Horizontals: the body of \<^verbatim>\<open>for row in range(num_rows)\<close>.\<close>

definition scan_row :: "board \<Rightarrow> int \<Rightarrow> scan \<Rightarrow> scan option" where
  "scan_row board row s0 =
     do {
       s \<leftarrow> for_loop (py_range 0 COLS)
              (\<lambda>col s. do { piece \<leftarrow> item board (row * 7 + col); Some (visit piece col s) })
              (new_line s0);
       Some (finish (6 + 1) s)
     }"

text \<open>Verticals: the body of \<^verbatim>\<open>for col in range(COLS)\<close>.\<close>

definition scan_col :: "board \<Rightarrow> int \<Rightarrow> int \<Rightarrow> scan \<Rightarrow> scan option" where
  "scan_col board num_rows col s0 =
     do {
       s \<leftarrow> for_loop (py_range 0 num_rows)
              (\<lambda>row s. do { piece \<leftarrow> item board (row * 7 + col); Some (visit piece row s) })
              (new_line s0);
       Some (finish (5 + 1) s)
     }"

text \<open>
  Up-left diagonals. The \<^verbatim>\<open>while\<close> loop
  \<^verbatim>\<open>while row + diagonal_idx < num_rows and col - diagonal_idx >= 0\<close>
  with \<open>d\<close> for \<^verbatim>\<open>diagonal_idx\<close>; \<open>num_rows - (row + d)\<close> decreases.
\<close>

function while_up_left :: "board \<Rightarrow> int \<Rightarrow> int \<Rightarrow> int \<Rightarrow> int \<Rightarrow> scan \<Rightarrow> scan option" where
  "while_up_left board num_rows row col d s =
     (if row + d < num_rows \<and> col - d \<ge> 0 then
        (case item board ((row + d) * 7 + col - d) of
           None \<Rightarrow> None
         | Some piece \<Rightarrow> while_up_left board num_rows row col (d + 1) (visit piece d s))
      else Some s)"
  by pat_completeness auto
termination
  by (relation "measure (\<lambda>(board, num_rows, row, col, d, s). nat (num_rows - (row + d)))") auto

declare while_up_left.simps [simp del]

definition up_left_starts :: "int \<Rightarrow> (int \<times> int) list" where
  "up_left_starts num_rows =
     map (\<lambda>x. (0, x)) (py_range 3 COLS) @ map (\<lambda>x. (x, COLS - 1)) (py_range 1 (num_rows - 3))"

definition scan_up_left :: "board \<Rightarrow> int \<Rightarrow> int \<times> int \<Rightarrow> scan \<Rightarrow> scan option" where
  "scan_up_left board num_rows start s0 =
     (case start of (row, col) \<Rightarrow>
        do {
          s \<leftarrow> while_up_left board num_rows row col 0 (new_line s0);
          Some (finish (num_rows - row) s)
        })"

text \<open>
  Up-right diagonals, with
  \<^verbatim>\<open>while row + diagonal_idx < num_rows and col + diagonal_idx < COLS\<close>.
\<close>

function while_up_right :: "board \<Rightarrow> int \<Rightarrow> int \<Rightarrow> int \<Rightarrow> int \<Rightarrow> scan \<Rightarrow> scan option" where
  "while_up_right board num_rows row col d s =
     (if row + d < num_rows \<and> col + d < COLS then
        (case item board ((row + d) * 7 + col + d) of
           None \<Rightarrow> None
         | Some piece \<Rightarrow> while_up_right board num_rows row col (d + 1) (visit piece d s))
      else Some s)"
  by pat_completeness auto
termination
  by (relation "measure (\<lambda>(board, num_rows, row, col, d, s). nat (num_rows - (row + d)))") auto

declare while_up_right.simps [simp del]

definition up_right_starts :: "int \<Rightarrow> (int \<times> int) list" where
  "up_right_starts num_rows =
     map (\<lambda>x. (0, x)) (py_range_down (COLS - 4) (- 1)) @ map (\<lambda>x. (x, 0)) (py_range 1 (num_rows - 3))"

definition scan_up_right :: "board \<Rightarrow> int \<Rightarrow> int \<times> int \<Rightarrow> scan \<Rightarrow> scan option" where
  "scan_up_right board num_rows start s0 =
     (case start of (row, col) \<Rightarrow>
        do {
          s \<leftarrow> while_up_right board num_rows row col 0 (new_line s0);
          Some (finish (num_rows - row) s)
        })"

text \<open>
  The scanning part of \<^verbatim>\<open>check_victory\<close>, in the order of the source: every row; then,
  under \<^verbatim>\<open>if num_rows >= 4\<close>, every column and both families of diagonals.
\<close>

definition scan_horizontals :: "board \<Rightarrow> int \<Rightarrow> scan \<Rightarrow> scan option" where
  "scan_horizontals board num_rows s = for_loop (py_range 0 num_rows) (scan_row board) s"

definition scan_verticals_diagonals :: "board \<Rightarrow> int \<Rightarrow> scan \<Rightarrow> scan option" where
  "scan_verticals_diagonals board num_rows s1 =
     do {
       s2 \<leftarrow> for_loop (py_range 0 COLS) (scan_col board num_rows) s1;
       s3 \<leftarrow> for_loop (up_left_starts num_rows) (scan_up_left board num_rows) s2;
       for_loop (up_right_starts num_rows) (scan_up_right board num_rows) s3
     }"

definition initial_scan :: scan where
  "initial_scan = \<lparr>yellow_wins = False, red_wins = False, streak_piece = 0, index_of_streak_start = 0\<rparr>"

definition scan_board :: "board \<Rightarrow> scan option" where
  "scan_board board =
     (let num_rows = int (length board) div COLS in
      do {
        s1 \<leftarrow> scan_horizontals board num_rows initial_scan;
        if num_rows \<ge> 4 then scan_verticals_diagonals board num_rows s1 else Some s1
      })"

text \<open>The closing \<^verbatim>\<open>if yellow_wins and red_wins: ... return 0\<close>.\<close>

definition verdict :: "scan \<Rightarrow> int \<Rightarrow> int" where
  "verdict s who_played =
     (if yellow_wins s \<and> red_wins s then 3 - who_played
      else if yellow_wins s then YELLOW
      else if red_wins s then RED
      else 0)"

definition check_victory :: "board \<Rightarrow> int \<Rightarrow> int option" where
  "check_victory board who_played =
     do { s \<leftarrow> scan_board board; Some (verdict s who_played) }"

section \<open>apply_move\<close>

text \<open>
  \<^verbatim>\<open>apply_move\<close> consists of the single statement \<^verbatim>\<open>return board.copy()\<close>. A Python
  list is an object, and \<^verbatim>\<open>copy\<close> allocates a new one; the store of list objects is a
  list of boards here, an object's address being its position, and allocation appends.
\<close>

type_synonym store = "board list"

definition list_copy :: "store \<Rightarrow> nat \<Rightarrow> nat \<times> store" where
  "list_copy st r = (length st, st @ [st ! r])"

definition apply_move_obj :: "store \<Rightarrow> nat \<Rightarrow> int \<Rightarrow> int \<Rightarrow> bool \<Rightarrow> nat \<times> store" where
  "apply_move_obj st board turn col pop = list_copy st board"

text \<open>
  The same function on values: the contents of the list it returns, when it is called
  on a store that holds the board.
\<close>

definition apply_move :: "board \<Rightarrow> int \<Rightarrow> int \<Rightarrow> bool \<Rightarrow> board" where
  "apply_move board turn col pop =
     (case apply_move_obj [board] 0 turn col pop of (r, st) \<Rightarrow> st ! r)"

section \<open>The vocabulary of the specification\<close>

text \<open>
  The definitions of this section do not come from the source. They spell out words of
  the specification that the statements below need: a structurally valid board, the
  number of occupied cells of a column, and four equal pieces in a line.
\<close>

definition valid_board :: "board \<Rightarrow> bool" where
  "valid_board b \<longleftrightarrow>
     0 < length b \<and> length b mod 7 = 0 \<and> list_all (\<lambda>p. p = 0 \<or> p = YELLOW \<or> p = RED) b"

definition column_cells :: "board \<Rightarrow> int \<Rightarrow> int list" where
  "column_cells b col = map (\<lambda>row. b ! nat (row * 7 + col)) (py_range 0 (int (length b) div 7))"

definition occupied_count :: "board \<Rightarrow> int \<Rightarrow> nat" where
  "occupied_count b col = length (filter (\<lambda>p. p \<noteq> 0) (column_cells b col))"

text \<open>The cell at a row and a column, \<open>None\<close> off the board.\<close>

definition spec_cell :: "board \<Rightarrow> int \<Rightarrow> int \<Rightarrow> int option" where
  "spec_cell b row col =
     (if 0 \<le> row \<and> row < int (length b) div 7 \<and> 0 \<le> col \<and> col < 7
      then Some (b ! nat (row * 7 + col)) else None)"

text \<open>
  Four cells holding \<open>p\<close>, from \<open>(row, col)\<close> in steps of \<open>(dr, dc)\<close>; then four in some
  row, and four in any of the four orientations.
\<close>

definition spec_four_at :: "board \<Rightarrow> int \<Rightarrow> int \<Rightarrow> int \<Rightarrow> int \<Rightarrow> int \<Rightarrow> bool" where
  "spec_four_at b p row col dr dc =
     list_all (\<lambda>k. spec_cell b (row + k * dr) (col + k * dc) = Some p) [0, 1, 2, 3]"

definition spec_row_four :: "board \<Rightarrow> int \<Rightarrow> bool" where
  "spec_row_four b p =
     list_ex (\<lambda>row. list_ex (\<lambda>col. spec_four_at b p row col 0 1) (py_range 0 4))
       (py_range 0 (int (length b) div 7))"

definition spec_any_four :: "board \<Rightarrow> int \<Rightarrow> bool" where
  "spec_any_four b p =
     list_ex (\<lambda>row. list_ex (\<lambda>col.
         spec_four_at b p row col 0 1 \<or> spec_four_at b p row col 1 0 \<or>
         spec_four_at b p row col 1 1 \<or> spec_four_at b p row col 1 (- 1))
       (py_range 0 7))
       (py_range 0 (int (length b) div 7))"

section \<open>Positions used below\<close>

text \<open>
  Five rows, bottom row first. Row 2 holds YELLOW in columns 3 to 6, and RED holds the
  diagonal (1,1), (2,2), (3,3), (4,4). It is the position after YELLOW pops column 3 of
  the board whose column 3 reads 1, 1, 2, 1, 2 from the bottom and whose other columns
  are the same: the pop lowers a YELLOW piece into row 2 and a RED piece into row 3.
\<close>

definition double_win_board :: board where
  "double_win_board =
     [0, 1, 2, 1, 2, 1, 2,
      0, 2, 1, 2, 1, 2, 1,
      0, 0, 2, 1, 1, 1, 1,
      0, 0, 0, 2, 1, 0, 0,
      0, 0, 0, 0, 2, 0, 0]"

text \<open>Three rows with column 0 full of YELLOW.\<close>

definition three_row_board :: board where
  "three_row_board =
     [1, 0, 0, 0, 0, 0, 0,
      1, 0, 0, 0, 0, 0, 0,
      1, 0, 0, 0, 0, 0, 0]"

text \<open>One empty row; and two rows with YELLOW below RED in column 0.\<close>

definition empty_row_board :: board where
  "empty_row_board = [0, 0, 0, 0, 0, 0, 0]"

definition stacked_board :: board where
  "stacked_board =
     [1, 0, 0, 0, 0, 0, 0,
      2, 0, 0, 0, 0, 0, 0]"

section \<open>Every read of the board is in range\<close>

lemma item_in_range: "0 \<le> i \<Longrightarrow> i < int (length b) \<Longrightarrow> item b i = Some (b ! nat i)"
  by (simp add: item_def)

lemma cell_index_bound:
  fixes row col n :: int
  assumes "0 \<le> row" "row < n div 7" "0 \<le> col" "col < 7"
  shows "0 \<le> row * 7 + col \<and> row * 7 + col < n"
proof -
  have "n = 7 * (n div 7) + n mod 7" by simp
  moreover have "0 \<le> n mod 7" by simp
  ultimately have "7 * (n div 7) \<le> n" by linarith
  with assms show ?thesis by linarith
qed

lemma set_py_range: "set (py_range a b) = {i. a \<le> i \<and> i < b}"
  by (auto simp: py_range_def)

lemma set_py_range_down: "set (py_range_down a b) = {i. b < i \<and> i \<le> a}"
  by (auto simp: py_range_down_def)

lemma for_loop_total:
  assumes "\<And>i s. i \<in> set xs \<Longrightarrow> \<exists>s'. body i s = Some s'"
  shows "\<exists>s'. for_loop xs body s = Some s'"
  using assms
proof (induction xs arbitrary: s)
  case Nil
  show ?case by simp
next
  case (Cons x xs)
  from Cons.prems [of x s] obtain s1 where s1: "body x s = Some s1" by auto
  from Cons.IH [of s1] Cons.prems obtain s2 where "for_loop xs body s1 = Some s2" by auto
  with s1 show ?case by simp
qed

lemma scan_row_total:
  assumes "0 \<le> row" "row < int (length board) div 7"
  shows "\<exists>s'. scan_row board row s = Some s'"
proof -
  have body: "\<exists>s'. (do { piece \<leftarrow> item board (row * 7 + col); Some (visit piece col t) }) = Some s'"
    if "col \<in> set (py_range 0 COLS)" for col t
  proof -
    from that have "0 \<le> col" "col < 7" by (simp_all add: set_py_range COLS_def)
    with assms have "0 \<le> row * 7 + col \<and> row * 7 + col < int (length board)"
      by (intro cell_index_bound) 
    then show ?thesis by (simp add: item_in_range)
  qed
  obtain t where "for_loop (py_range 0 COLS)
      (\<lambda>col s. do { piece \<leftarrow> item board (row * 7 + col); Some (visit piece col s) })
      (new_line s) = Some t"
    using for_loop_total [where body = "\<lambda>col s. do { piece \<leftarrow> item board (row * 7 + col); Some (visit piece col s) }", OF body] by blast
  then show ?thesis by (simp add: scan_row_def)
qed

lemma scan_col_total:
  assumes "0 \<le> col" "col < 7" "num_rows \<le> int (length board) div 7"
  shows "\<exists>s'. scan_col board num_rows col s = Some s'"
proof -
  have body: "\<exists>s'. (do { piece \<leftarrow> item board (row * 7 + col); Some (visit piece row t) }) = Some s'"
    if "row \<in> set (py_range 0 num_rows)" for row t
  proof -
    from that assms have "0 \<le> row" "row < int (length board) div 7" by (simp_all add: set_py_range)
    with assms have "0 \<le> row * 7 + col \<and> row * 7 + col < int (length board)"
      by (intro cell_index_bound) 
    then show ?thesis by (simp add: item_in_range)
  qed
  obtain t where "for_loop (py_range 0 num_rows)
      (\<lambda>row s. do { piece \<leftarrow> item board (row * 7 + col); Some (visit piece row s) })
      (new_line s) = Some t"
    using for_loop_total [where body = "\<lambda>row s. do { piece \<leftarrow> item board (row * 7 + col); Some (visit piece row s) }", OF body] by blast
  then show ?thesis by (simp add: scan_col_def)
qed

lemma while_up_left_total:
  "0 \<le> row \<Longrightarrow> 0 \<le> d \<Longrightarrow> col < 7 \<Longrightarrow> num_rows \<le> int (length board) div 7 \<Longrightarrow>
   \<exists>s'. while_up_left board num_rows row col d s = Some s'"
proof (induction board num_rows row col d s rule: while_up_left.induct)
  case (1 board num_rows row col d s)
  show ?case
  proof (cases "row + d < num_rows \<and> col - d \<ge> 0")
    case False
    then show ?thesis by (auto simp: while_up_left.simps [of board num_rows row col d s])
  next
    case True
    with "1.prems" have "0 \<le> row + d" "row + d < int (length board) div 7" "0 \<le> col - d" "col - d < 7"
      by simp_all
    then have "0 \<le> (row + d) * 7 + (col - d) \<and> (row + d) * 7 + (col - d) < int (length board)"
      by (intro cell_index_bound)
    then have it: "item board ((row + d) * 7 + col - d) = Some (board ! nat ((row + d) * 7 + col - d))"
      by (intro item_in_range) simp_all
    from "1.IH" [OF True it] "1.prems"
    obtain s' where "while_up_left board num_rows row col (d + 1) (visit (board ! nat ((row + d) * 7 + col - d)) d s) = Some s'"
      by auto
    with True it show ?thesis by (simp add: while_up_left.simps [of board num_rows row col d s])
  qed
qed

lemma while_up_right_total:
  "0 \<le> row \<Longrightarrow> 0 \<le> d \<Longrightarrow> 0 \<le> col \<Longrightarrow> num_rows \<le> int (length board) div 7 \<Longrightarrow>
   \<exists>s'. while_up_right board num_rows row col d s = Some s'"
proof (induction board num_rows row col d s rule: while_up_right.induct)
  case (1 board num_rows row col d s)
  show ?case
  proof (cases "row + d < num_rows \<and> col + d < COLS")
    case False
    then show ?thesis by (auto simp: while_up_right.simps [of board num_rows row col d s])
  next
    case True
    with "1.prems" have "0 \<le> row + d" "row + d < int (length board) div 7" "0 \<le> col + d" "col + d < 7"
      by (simp_all add: COLS_def)
    then have "0 \<le> (row + d) * 7 + (col + d) \<and> (row + d) * 7 + (col + d) < int (length board)"
      by (intro cell_index_bound)
    then have it: "item board ((row + d) * 7 + col + d) = Some (board ! nat ((row + d) * 7 + col + d))"
      by (intro item_in_range) simp_all
    from "1.IH" [OF True it] "1.prems"
    obtain s' where "while_up_right board num_rows row col (d + 1) (visit (board ! nat ((row + d) * 7 + col + d)) d s) = Some s'"
      by auto
    with True it show ?thesis by (simp add: while_up_right.simps [of board num_rows row col d s])
  qed
qed

lemma up_left_starts_bounds:
  "(row, col) \<in> set (up_left_starts n) \<Longrightarrow> 0 \<le> row \<and> col < 7"
  by (auto simp: up_left_starts_def set_py_range COLS_def)

lemma up_right_starts_bounds:
  "(row, col) \<in> set (up_right_starts n) \<Longrightarrow> 0 \<le> row \<and> 0 \<le> col"
  by (auto simp: up_right_starts_def set_py_range set_py_range_down COLS_def)

lemma scan_up_left_total:
  assumes "start \<in> set (up_left_starts n)" "num_rows \<le> int (length board) div 7"
  shows "\<exists>s'. scan_up_left board num_rows start s = Some s'"
proof -
  obtain row col where rc: "start = (row, col)" by (cases start)
  with assms(1) have "0 \<le> row" "col < 7" using up_left_starts_bounds by blast+
  then obtain t where "while_up_left board num_rows row col 0 (new_line s) = Some t"
    using while_up_left_total [of row 0 col num_rows board] assms(2) by auto
  with rc show ?thesis by (simp add: scan_up_left_def)
qed

lemma scan_up_right_total:
  assumes "start \<in> set (up_right_starts n)" "num_rows \<le> int (length board) div 7"
  shows "\<exists>s'. scan_up_right board num_rows start s = Some s'"
proof -
  obtain row col where rc: "start = (row, col)" by (cases start)
  with assms(1) have "0 \<le> row" "0 \<le> col" using up_right_starts_bounds by blast+
  then obtain t where "while_up_right board num_rows row col 0 (new_line s) = Some t"
    using while_up_right_total [of row 0 col num_rows board] assms(2) by auto
  with rc show ?thesis by (simp add: scan_up_right_def)
qed

lemma scan_horizontals_total:
  "\<exists>s'. scan_horizontals board (int (length board) div COLS) s = Some s'"
  unfolding scan_horizontals_def
  by (rule for_loop_total) (simp add: set_py_range COLS_def scan_row_total)

lemma scan_verticals_diagonals_total:
  "\<exists>s'. scan_verticals_diagonals board (int (length board) div COLS) s = Some s'"
proof -
  let ?n = "int (length board) div COLS"
  have n: "?n \<le> int (length board) div 7" by (simp add: COLS_def)
  obtain s2 where s2: "for_loop (py_range 0 COLS) (scan_col board ?n) s = Some s2"
    using for_loop_total [of "py_range 0 COLS" "scan_col board ?n" s] scan_col_total [OF _ _ n]
    by (auto simp: set_py_range COLS_def)
  obtain s3 where s3: "for_loop (up_left_starts ?n) (scan_up_left board ?n) s2 = Some s3"
    using for_loop_total [of "up_left_starts ?n" "scan_up_left board ?n" s2] scan_up_left_total [OF _ n]
    by blast
  obtain s4 where s4: "for_loop (up_right_starts ?n) (scan_up_right board ?n) s3 = Some s4"
    using for_loop_total [of "up_right_starts ?n" "scan_up_right board ?n" s3] scan_up_right_total [OF _ n]
    by blast
  from s2 s3 s4 show ?thesis by (simp add: scan_verticals_diagonals_def)
qed

lemma scan_board_total: "\<exists>s. scan_board board = Some s"
proof -
  let ?n = "int (length board) div COLS"
  obtain s1 where s1: "scan_horizontals board ?n initial_scan = Some s1"
    using scan_horizontals_total by blast
  obtain s2 where s2: "scan_verticals_diagonals board ?n s1 = Some s2"
    using scan_verticals_diagonals_total by blast
  from s1 s2 show ?thesis by (simp add: scan_board_def Let_def)
qed

lemma verdict_range:
  "who_played = YELLOW \<or> who_played = RED \<Longrightarrow> verdict s who_played \<in> {0, YELLOW, RED}"
  by (auto simp: verdict_def YELLOW_def RED_def)

lemma apply_move_obj_eq: "apply_move_obj st r turn col pop = (length st, st @ [st ! r])"
  by (simp add: apply_move_obj_def list_copy_def)

lemma apply_move_eq: "apply_move board turn col pop = board"
  by (simp add: apply_move_def apply_move_obj_eq)

section \<open>The claims about check_victory\<close>

text \<open>
  C1. When the scan of a board has recorded a win for both YELLOW and RED and the player
  who moved is 1 or 2, \<open>check_victory\<close> returns \<open>3 - who_played\<close>, which is the other
  player. The position \<open>double_win_board\<close>, where a pop has given YELLOW four in a row and
  RED four on a diagonal, is such a board: with YELLOW as the mover the result is RED.
\<close>

theorem check_victory_double_win:
  assumes "scan_board board = Some s" and "yellow_wins s" and "red_wins s"
    and "who_played = YELLOW \<or> who_played = RED"
  shows "check_victory board who_played = Some (3 - who_played)
    \<and> (3 - who_played = YELLOW \<or> 3 - who_played = RED)
    \<and> 3 - who_played \<noteq> who_played"
proof -
  from assms(1-3) have "check_victory board who_played = Some (3 - who_played)"
    by (simp add: check_victory_def verdict_def)
  moreover from assms(4) have "3 - who_played = YELLOW \<or> 3 - who_played = RED"
    by (auto simp: YELLOW_def RED_def)
  moreover from assms(4) have "3 - who_played \<noteq> who_played"
    by (auto simp: YELLOW_def RED_def)
  ultimately show ?thesis by simp
qed

theorem check_victory_double_win_witness:
  "spec_four_at double_win_board YELLOW 2 3 0 1
   \<and> spec_four_at double_win_board RED 1 1 1 1
   \<and> check_victory double_win_board YELLOW = Some RED"
proof -
  let ?s = "\<lparr>yellow_wins = True, red_wins = True, streak_piece = 0, index_of_streak_start = 0\<rparr>"
  have sc: "scan_board double_win_board = Some ?s"
    by code_simp
  have y: "spec_four_at double_win_board YELLOW 2 3 0 1"
    by code_simp
  have r: "spec_four_at double_win_board RED 1 1 1 1"
    by code_simp
  have "check_victory double_win_board YELLOW = Some (3 - YELLOW)"
    using check_victory_double_win [OF sc, of YELLOW] by simp
  then have "check_victory double_win_board YELLOW = Some RED"
    by (simp add: YELLOW_def RED_def)
  with y r show ?thesis by simp
qed

text \<open>
  C4. On the one-row board 1,1,1,1,0,2,2 the specification expects YELLOW (1) from
  \<open>check_victory\<close> with RED as the mover. The function returns 0: the streak of four
  YELLOW pieces is broken at column 4, where the test
  \<^verbatim>\<open>col - index_of_streak_start + 1 == 4\<close> computes 5, and the row ends on a RED streak
  that starts at column 5.
\<close>

theorem check_victory_row_example:
  "check_victory [1, 1, 1, 1, 0, 2, 2] RED = Some 0"
  by code_simp

text \<open>
  C5. A run longer than four is not recorded. Five YELLOW pieces at the start of a row
  (broken at column 5, where the test computes 6) and five at the end of a row (the
  closing test \<^verbatim>\<open>6 + 1 - index_of_streak_start == 4\<close> computes 5) both give 0, whereas
  four at the end of a row gives YELLOW.
\<close>

theorem check_victory_five_in_a_row:
  "spec_four_at [1, 1, 1, 1, 1, 0, 0] YELLOW 0 0 0 1
   \<and> spec_four_at [1, 1, 1, 1, 1, 0, 0] YELLOW 0 1 0 1
   \<and> check_victory [1, 1, 1, 1, 1, 0, 0] YELLOW = Some 0
   \<and> check_victory [0, 0, 1, 1, 1, 1, 1] YELLOW = Some 0
   \<and> check_victory [0, 0, 0, 1, 1, 1, 1] YELLOW = Some YELLOW"
  by code_simp

text \<open>
  C6. A board with four YELLOW pieces in columns 0 to 3 of its row and no RED four in
  any orientation: the specification expects YELLOW, the function returns 0 for either
  mover. The same holds with the colours exchanged.
\<close>

theorem check_victory_row_four_missed:
  "spec_row_four [1, 1, 1, 1, 0, 0, 0] YELLOW
   \<and> \<not> spec_any_four [1, 1, 1, 1, 0, 0, 0] RED
   \<and> check_victory [1, 1, 1, 1, 0, 0, 0] YELLOW = Some 0
   \<and> check_victory [1, 1, 1, 1, 0, 0, 0] RED = Some 0
   \<and> spec_row_four [2, 2, 2, 2, 0, 0, 0] RED
   \<and> \<not> spec_any_four [2, 2, 2, 2, 0, 0, 0] YELLOW
   \<and> check_victory [2, 2, 2, 2, 0, 0, 0] YELLOW = Some 0"
  by code_simp

text \<open>
  C7. On a board of three rows or fewer the columns and the diagonals are not scanned:
  the result of \<open>check_victory\<close> is the verdict on what the scan of the rows alone has
  recorded.
\<close>

theorem check_victory_short_board:
  assumes "int (length board) div COLS < 4"
  shows "check_victory board who_played =
    do { s \<leftarrow> scan_horizontals board (int (length board) div COLS) initial_scan;
         Some (verdict s who_played) }"
  using assms by (simp add: check_victory_def scan_board_def Let_def)

theorem check_victory_short_board_witness:
  "int (length three_row_board) div COLS < 4
   \<and> spec_cell three_row_board 0 0 = Some YELLOW
   \<and> spec_cell three_row_board 1 0 = Some YELLOW
   \<and> spec_cell three_row_board 2 0 = Some YELLOW
   \<and> check_victory three_row_board RED = Some 0"
proof -
  have h: "int (length three_row_board) div COLS < 4"
    by code_simp
  have rows: "do { s \<leftarrow> scan_horizontals three_row_board (int (length three_row_board) div COLS) initial_scan;
                  Some (verdict s RED) } = Some 0"
    by code_simp
  have cells: "spec_cell three_row_board 0 0 = Some YELLOW
     \<and> spec_cell three_row_board 1 0 = Some YELLOW
     \<and> spec_cell three_row_board 2 0 = Some YELLOW"
    by code_simp
  from check_victory_short_board [OF h, of RED] rows
  have "check_victory three_row_board RED = Some 0" by simp
  with h cells show ?thesis by simp
qed

text \<open>
  C10. For every board, of any length and with any cells, and a mover that is 1 or 2,
  \<open>check_victory\<close> returns (no read of the board is out of range) and its result is 0,
  1 or 2.
\<close>

theorem check_victory_result_range:
  assumes "who_played = YELLOW \<or> who_played = RED"
  shows "\<exists>v. check_victory board who_played = Some v \<and> (v = 0 \<or> v = YELLOW \<or> v = RED)"
proof -
  obtain s where "scan_board board = Some s" using scan_board_total by blast
  then have "check_victory board who_played = Some (verdict s who_played)"
    by (simp add: check_victory_def)
  with verdict_range [OF assms] show ?thesis by simp
qed

theorem check_victory_result_range_witness:
  "(RED = YELLOW \<or> RED = RED)
   \<and> (\<exists>v. check_victory [1, 2, 1] RED = Some v \<and> (v = 0 \<or> v = YELLOW \<or> v = RED))"
  using check_victory_result_range [of RED "[1, 2, 1]"] by simp

section \<open>The claims about apply_move\<close>

text \<open>
  C2. A drop into column 0 of the empty one-row board: the specification expects the
  mover's piece in the bottom cell of the column and one more occupied cell there. The
  function returns the board as it was; the column still has no occupied cell.
\<close>

theorem apply_move_drop_no_piece:
  "valid_board empty_row_board
   \<and> occupied_count empty_row_board 0 = 0
   \<and> apply_move empty_row_board YELLOW 0 False = empty_row_board
   \<and> spec_cell (apply_move empty_row_board YELLOW 0 False) 0 0 = Some 0
   \<and> occupied_count (apply_move empty_row_board YELLOW 0 False) 0 = 0"
  by code_simp

text \<open>
  C3. A pop of column 0 of the two-row board whose column 0 holds YELLOW below RED: the
  specification expects RED to come down to row 0 and one occupied cell less. The
  function returns the board as it was; YELLOW is still at row 0 and the column still
  has two occupied cells.
\<close>

theorem apply_move_pop_no_removal:
  "valid_board stacked_board
   \<and> spec_cell stacked_board 0 0 = Some YELLOW
   \<and> apply_move stacked_board YELLOW 0 True = stacked_board
   \<and> spec_cell (apply_move stacked_board YELLOW 0 True) 0 0 = Some YELLOW
   \<and> spec_cell (apply_move stacked_board YELLOW 0 True) 1 0 = Some RED
   \<and> occupied_count (apply_move stacked_board YELLOW 0 True) 0 = 2"
  by code_simp

text \<open>
  C8. On a structurally valid board, for a player 1 or 2 and a column from 0 to 6 that
  is empty, a drop into the column followed by a pop of the same column gives the
  original board.
\<close>

theorem apply_move_drop_pop_round_trip:
  assumes "valid_board board" and "turn = YELLOW \<or> turn = RED"
    and "0 \<le> col" and "col \<le> 6" and "occupied_count board col = 0"
  shows "apply_move (apply_move board turn col False) turn col True = board"
  by (simp add: apply_move_eq)

theorem apply_move_drop_pop_round_trip_witness:
  "valid_board stacked_board \<and> occupied_count stacked_board 3 = 0
   \<and> apply_move (apply_move stacked_board RED 3 False) RED 3 True = stacked_board"
proof -
  have v: "valid_board stacked_board"
    by code_simp
  have e: "occupied_count stacked_board 3 = 0"
    by code_simp
  from apply_move_drop_pop_round_trip [OF v _ _ _ e, of RED]
  have "apply_move (apply_move stacked_board RED 3 False) RED 3 True = stacked_board"
    by simp
  with v e show ?thesis by simp
qed

text \<open>
  C9. For every board, turn, column and value of the pop flag, \<open>apply_move\<close> returns a
  list object that did not exist before the call (so it is not the board passed in),
  whose elements are those of the board passed in; the objects that existed before the
  call are unchanged. On values it is the identity: no piece is inserted or removed.
\<close>

theorem apply_move_identity_copy:
  assumes "r < length st"
  shows "(case apply_move_obj st r turn col pop of
            (r', st') \<Rightarrow>
              r' \<noteq> r \<and> length st \<le> r' \<and> r' < length st'
              \<and> st' ! r' = st ! r \<and> take (length st) st' = st)
    \<and> apply_move board turn col pop = board"
  using assms by (simp add: apply_move_obj_eq apply_move_eq)

theorem apply_move_identity_copy_witness:
  "apply_move_obj [stacked_board] 0 YELLOW 0 True = (1, [stacked_board, stacked_board])
   \<and> apply_move stacked_board YELLOW 0 True = stacked_board"
  using apply_move_identity_copy [of 0 "[stacked_board]" YELLOW 0 True stacked_board]
  by (simp add: apply_move_obj_eq)

end
